theory Spec2Isabelle
  imports Complex_Main
begin

section \<open>SegmentedControl: data model\<close>

text \<open>
  The component of \<^verbatim>\<open>src/components/segmentedControl/index.tsx\<close> is a function of its
  props and of four pieces of state kept across renders: the React state
  \<^verbatim>\<open>selectedSegment\<close> and the three refs \<^verbatim>\<open>segmentsStyle\<close>, \<^verbatim>\<open>segmentsCounter\<close> and
  \<^verbatim>\<open>animatedValue\<close>. Every handler is modelled as a function from the state before the
  event to the state after it. JavaScript numbers are idealised: indices are integers
  (they come from \<^verbatim>\<open>_.map(segments, (_value, index) => ...)\<close>), pixel quantities are reals.
\<close>

text \<open>The layout rectangle stored per segment: \<^verbatim>\<open>{x: number; width: number}\<close>.\<close>

record geometry =
  seg_x :: real
  seg_width :: real

text \<open>\<^verbatim>\<open>Easing.bezier(x1, y1, x2, y2)\<close>: the curve is only recorded, never evaluated here.\<close>

datatype easing = Bezier real real real real

text \<open>The configuration object given to \<^verbatim>\<open>Reanimated.timing\<close>.\<close>

record timing_config =
  toValue :: int
  duration :: nat
  easing :: easing

text \<open>
  \<^verbatim>\<open>new Reanimated.Value(initialIndex)\<close> together with the animation last started on it
  (\<^verbatim>\<open>Reanimated.timing(animatedValue.current, config).start()\<close>).
\<close>

record animated_value =
  constructed :: int
  started :: "timing_config option"

text \<open>The value the animated scalar is heading to: the target of the animation last
  started, or the constructed value when none was started.\<close>

definition target :: "animated_value \<Rightarrow> int" where
  "target av = (case started av of None \<Rightarrow> constructed av | Some c \<Rightarrow> toValue c)"

text \<open>What the component does to the outside, in the order it does it.\<close>

datatype effect =
    OnChangeIndex int
  | TimingStart timing_config
  | SetSelectedSegment int

text \<open>The optional callback prop is host code; only its presence matters here, its
  invocations are recorded in the trace.\<close>

datatype callback = HostCallback

text \<open>The props the logic reads. The segment descriptors (\<^verbatim>\<open>SegmentItemProps\<close>) are
  opaque to this file, which only reads \<^verbatim>\<open>segments?.length\<close>.\<close>

record 'seg props =
  segments :: "'seg list option"
  onChangeIndex :: "callback option"
  initialIndex :: "int option"
  outlineWidth :: "real option"

definition BORDER_WIDTH :: real where
  "BORDER_WIDTH = 1"

text \<open>The destructuring defaults \<^verbatim>\<open>initialIndex = 0\<close> and \<^verbatim>\<open>outlineWidth = BORDER_WIDTH\<close>.\<close>

definition initialIndex_of :: "'seg props \<Rightarrow> int" where
  "initialIndex_of p = (case initialIndex p of None \<Rightarrow> 0 | Some i \<Rightarrow> i)"

definition outlineWidth_of :: "'seg props \<Rightarrow> real" where
  "outlineWidth_of p = (case outlineWidth p of None \<Rightarrow> BORDER_WIDTH | Some w \<Rightarrow> w)"

text \<open>\<^verbatim>\<open>segments?.length\<close>: \<open>None\<close> is \<^verbatim>\<open>undefined\<close>.\<close>

definition segments_length :: "'seg props \<Rightarrow> nat option" where
  "segments_length p = map_option length (segments p)"

text \<open>
  The state. \<^verbatim>\<open>segmentsStyle.current\<close> is a JavaScript array, which may have holes:
  \<open>None\<close> at a position is a hole (reads as \<^verbatim>\<open>undefined\<close>).
\<close>

record state =
  selectedSegment :: int
  segmentsStyle :: "geometry option list"
  segmentsCounter :: nat
  animatedValue :: animated_value
  trace :: "effect list"

text \<open>The state at mount: \<^verbatim>\<open>useState(-1)\<close>, \<^verbatim>\<open>useRef([])\<close>, \<^verbatim>\<open>useRef(0)\<close>,
  \<^verbatim>\<open>useRef(new Reanimated.Value(initialIndex))\<close>.\<close>

definition init :: "'seg props \<Rightarrow> state" where
  "init p =
     \<lparr>selectedSegment = - 1,
      segmentsStyle = [],
      segmentsCounter = 0,
      animatedValue = \<lparr>constructed = initialIndex_of p, started = None\<rparr>,
      trace = []\<rparr>"

section \<open>Press handling\<close>

text \<open>\<^verbatim>\<open>setSelectedSegment(index)\<close>: the handler's render sees the new value.\<close>

definition setSelectedSegment :: "int \<Rightarrow> state \<Rightarrow> state" where
  "setSelectedSegment index s =
     s\<lparr>selectedSegment := index, trace := trace s @ [SetSelectedSegment index]\<rparr>"

text \<open>\<^verbatim>\<open>Reanimated.timing(animatedValue.current, config).start()\<close>.\<close>

definition timing_start :: "timing_config \<Rightarrow> state \<Rightarrow> state" where
  "timing_start c s =
     s\<lparr>animatedValue := (animatedValue s)\<lparr>started := Some c\<rparr>,
       trace := trace s @ [TimingStart c]\<rparr>"

definition press_config :: "int \<Rightarrow> timing_config" where
  "press_config index =
     \<lparr>toValue = index, duration = 300, easing = Bezier (33 / 100) 1 (68 / 100) 1\<rparr>"

definition updateSelectedSegment :: "int \<Rightarrow> state \<Rightarrow> state" where
  "updateSelectedSegment index s = setSelectedSegment index (timing_start (press_config index) s)"

text \<open>\<^verbatim>\<open>onChangeIndex?.(index)\<close>: nothing happens when the prop is absent.\<close>

definition call_onChangeIndex :: "'seg props \<Rightarrow> int \<Rightarrow> state \<Rightarrow> state" where
  "call_onChangeIndex p index s =
     (case onChangeIndex p of
        None \<Rightarrow> s
      | Some cb \<Rightarrow> s\<lparr>trace := trace s @ [OnChangeIndex index]\<rparr>)"

definition onSegmentPress :: "'seg props \<Rightarrow> int \<Rightarrow> state \<Rightarrow> state" where
  "onSegmentPress p index s =
     (if selectedSegment s \<noteq> index
      then updateSelectedSegment index (call_onChangeIndex p index s)
      else s)"

section \<open>Layout reports\<close>

text \<open>
  \<^verbatim>\<open>segmentsStyle.current[index] = {x, width}\<close> on a JavaScript array: a position inside
  the array is overwritten, a position at or past the end extends the array, leaving
  holes in between. A negative index creates a property that is not an element: the
  elements and the length stay as they are.
\<close>

definition array_set :: "geometry option list \<Rightarrow> int \<Rightarrow> geometry \<Rightarrow> geometry option list" where
  "array_set t index g =
     (if index < 0 then t
      else if nat index < length t then t[nat index := Some g]
      else t @ replicate (nat index - length t) None @ [Some g])"

definition onLayout :: "'seg props \<Rightarrow> int \<Rightarrow> geometry \<Rightarrow> state \<Rightarrow> state" where
  "onLayout p index g s =
     (let s1 = s\<lparr>segmentsStyle := array_set (segmentsStyle s) index g\<rparr>;
          s2 = s1\<lparr>segmentsCounter := segmentsCounter s1 + 1\<rparr>
      in if Some (segmentsCounter s2) = segments_length p
         then setSelectedSegment (initialIndex_of p) s2
         else s2)"

section \<open>The derived highlight style\<close>

text \<open>The configuration object \<^verbatim>\<open>{inputRange, outputRange}\<close> given to \<^verbatim>\<open>interpolate\<close>; the
  node \<^verbatim>\<open>interpolate\<close> returns carries it.\<close>

record interpolation =
  inputRange :: "real list"
  outputRange :: "real list"

text \<open>The object \<^verbatim>\<open>{width, left}\<close> returned by \<^verbatim>\<open>getAnimatedStyle\<close>.\<close>

record animated_style =
  width_node :: interpolation
  left_node :: interpolation

text \<open>What the render can throw: reading a field of \<^verbatim>\<open>undefined\<close>, and an invariant
  violation raised by the animation driver.\<close>

datatype error = TypeError | InvariantViolation

text \<open>\<^verbatim>\<open>_.times(n)\<close>: the numbers \<open>0, ..., n - 1\<close>.\<close>

definition times :: "nat \<Rightarrow> real list" where
  "times n = map real [0..<n]"

text \<open>
  \<^verbatim>\<open>_.map(segmentsStyle.current, segment => f(segment))\<close> where \<open>f\<close> reads a field of the
  segment: lodash visits every position below the length, holes included, and the
  field read throws at a hole.
\<close>

fun map_segments :: "(geometry \<Rightarrow> real) \<Rightarrow> geometry option list \<Rightarrow> error + real list" where
  "map_segments f [] = Inr []"
| "map_segments f (None # t) = Inl TypeError"
| "map_segments f (Some g # t) =
     (case map_segments f t of Inl e \<Rightarrow> Inl e | Inr ys \<Rightarrow> Inr (f g # ys))"

text \<open>
  Modelled from the spec: \<^verbatim>\<open>interpolate\<close> of the animation driver
  (react-native-reanimated), which is not part of the source. The specification calls
  an interpolation whose input and output arrays differ in length ill-defined, and a
  piecewise-linear interpolation needs two breakpoints: the driver refuses both with an
  invariant violation when the node is built (\<^verbatim>\<open>inputRange must have at least 2
  elements\<close>), so the call throws during the render. The input range built by
  \<^verbatim>\<open>_.times\<close> is increasing, as the driver also requires.
\<close>

definition interpolate :: "interpolation \<Rightarrow> error + interpolation" where
  "interpolate config =
     (if length (inputRange config) < 2 then Inl InvariantViolation
      else if length (outputRange config) < 2 then Inl InvariantViolation
      else if length (inputRange config) \<noteq> length (outputRange config)
      then Inl InvariantViolation
      else Inr config)"

text \<open>
  The two configuration objects \<^verbatim>\<open>getAnimatedStyle\<close> builds:
  \<^verbatim>\<open>{inputRange: _.times(segmentsCounter.current),
    outputRange: _.map(segmentsStyle.current, segment => segment.x - outlineWidth)}\<close>
  for \<^verbatim>\<open>left\<close>, and the same with \<^verbatim>\<open>segment => segment.width\<close> for \<^verbatim>\<open>width\<close>.
\<close>

definition left_config :: "'seg props \<Rightarrow> state \<Rightarrow> error + interpolation" where
  "left_config p s =
     (case map_segments (\<lambda>segment. seg_x segment - outlineWidth_of p) (segmentsStyle s) of
        Inl e \<Rightarrow> Inl e
      | Inr lefts \<Rightarrow> Inr \<lparr>inputRange = times (segmentsCounter s), outputRange = lefts\<rparr>)"

definition width_config :: "state \<Rightarrow> error + interpolation" where
  "width_config s =
     (case map_segments (\<lambda>segment. seg_width segment) (segmentsStyle s) of
        Inl e \<Rightarrow> Inl e
      | Inr widths \<Rightarrow> Inr \<lparr>inputRange = times (segmentsCounter s), outputRange = widths\<rparr>)"

text \<open>\<open>Inr None\<close> is the \<^verbatim>\<open>return undefined\<close> of the source. Behind the gate \<^verbatim>\<open>left\<close> is
  built first, then \<^verbatim>\<open>width\<close>; whatever throws first ends the call.\<close>

definition getAnimatedStyle :: "'seg props \<Rightarrow> state \<Rightarrow> error + animated_style option" where
  "getAnimatedStyle p s =
     (if Some (segmentsCounter s) = segments_length p then
        (case left_config p s of
           Inl e \<Rightarrow> Inl e
         | Inr lc \<Rightarrow>
             (case interpolate lc of
                Inl e \<Rightarrow> Inl e
              | Inr left \<Rightarrow>
                  (case width_config s of
                     Inl e \<Rightarrow> Inl e
                   | Inr wc \<Rightarrow>
                       (case interpolate wc of
                          Inl e \<Rightarrow> Inl e
                        | Inr width \<Rightarrow> Inr (Some \<lparr>width_node = width, left_node = left\<rparr>)))))
      else Inr None)"

section \<open>Runs of events\<close>

datatype event = Press int | Layout int geometry

fun handle :: "'seg props \<Rightarrow> state \<Rightarrow> event \<Rightarrow> state" where
  "handle p s (Press index) = onSegmentPress p index s"
| "handle p s (Layout index g) = onLayout p index g s"

definition run :: "'seg props \<Rightarrow> state \<Rightarrow> event list \<Rightarrow> state" where
  "run p s es = foldl (handle p) s es"

text \<open>The layout reports of a run, in order, and its presses.\<close>

fun layouts :: "event list \<Rightarrow> (int \<times> geometry) list" where
  "layouts [] = []"
| "layouts (Press index # es) = layouts es"
| "layouts (Layout index g # es) = (index, g) # layouts es"

fun presses :: "event list \<Rightarrow> event list" where
  "presses [] = []"
| "presses (Press index # es) = Press index # presses es"
| "presses (Layout index g # es) = presses es"

text \<open>Every segment \<open>0, ..., n - 1\<close> has reported its layout exactly once, in any order,
  and nothing else has.\<close>

definition each_reported_once :: "nat \<Rightarrow> event list \<Rightarrow> bool" where
  "each_reported_once n es \<longleftrightarrow> sort (map fst (layouts es)) = map int [0..<n]"

text \<open>A press carries the index of one of the \<open>n\<close> rendered segments.\<close>

fun press_in_range :: "nat \<Rightarrow> event \<Rightarrow> bool" where
  "press_in_range n (Press index) \<longleftrightarrow> 0 \<le> index \<and> index < int n"
| "press_in_range n (Layout index g) \<longleftrightarrow> True"

text \<open>The geometry table after a list of reports.\<close>

fun record_reports :: "geometry option list \<Rightarrow> (int \<times> geometry) list \<Rightarrow> geometry option list" where
  "record_reports t [] = t"
| "record_reports t ((index, g) # rs) = record_reports (array_set t index g) rs"

text \<open>Reading a JavaScript array: \<^verbatim>\<open>undefined\<close> at a hole and past the end.\<close>

definition read_at :: "geometry option list \<Rightarrow> nat \<Rightarrow> geometry option" where
  "read_at t j = (if j < length t then t ! j else None)"

section \<open>The value of an interpolation node\<close>

text \<open>
  Modelled from the spec: the value the animation driver (react-native-reanimated, not
  part of the source) gives an interpolation node. The specification gives the
  contract: a pure function mapping the current value through piecewise-linear
  interpolation over matched breakpoint arrays; between two breakpoints the value is
  interpolated linearly, and at a breakpoint it is that breakpoint's output. Numbers
  are reals here, so the arithmetic is exact, which the driver's doubles are not. The
  specification says nothing about values outside the breakpoints: they are \<open>None\<close>
  here, as is every value when there are fewer than two breakpoints.
\<close>

fun piecewise :: "(real \<times> real) list \<Rightarrow> real \<Rightarrow> real option" where
  "piecewise [] v = None"
| "piecewise [(a, b)] v = None"
| "piecewise ((a, b) # (c, d) # cps) v =
     (if a \<le> v \<and> v \<le> c \<and> a < c
      then Some (b + (v - a) * (d - b) / (c - a))
      else piecewise ((c, d) # cps) v)"

text \<open>
  Modelled from the spec: the value of an interpolation node at the animated value \<open>v\<close>.
  The input and output arrays must have the same length or the interpolation is
  ill-defined.
\<close>

definition node_value :: "interpolation \<Rightarrow> real \<Rightarrow> real option" where
  "node_value n v =
     (if length (inputRange n) = length (outputRange n)
      then piecewise (zip (inputRange n) (outputRange n)) v
      else None)"

text \<open>The highlight rectangle a style gives when the animated scalar has the value \<open>v\<close>.\<close>

record highlight =
  left_px :: real
  width_px :: real

definition style_at :: "animated_style \<Rightarrow> real \<Rightarrow> highlight option" where
  "style_at st v =
     (case node_value (left_node st) v of
        None \<Rightarrow> None
      | Some l \<Rightarrow>
          (case node_value (width_node st) v of
             None \<Rightarrow> None
           | Some w \<Rightarrow> Some \<lparr>left_px = l, width_px = w\<rparr>))"

text \<open>The highlight of a state at the value \<open>v\<close>: \<open>None\<close> when \<^verbatim>\<open>getAnimatedStyle\<close> returns
  \<^verbatim>\<open>undefined\<close> or throws, or when the interpolation is ill-defined.\<close>

definition highlight_at :: "'seg props \<Rightarrow> state \<Rightarrow> real \<Rightarrow> highlight option" where
  "highlight_at p s v =
     (case getAnimatedStyle p s of
        Inr (Some st) \<Rightarrow> style_at st v
      | _ \<Rightarrow> None)"

section \<open>Concrete configurations\<close>

text \<open>The scenario of the specification: three segments measured as
  \<open>{x: 0, w: 50}\<close>, \<open>{x: 52, w: 60}\<close>, \<open>{x: 114, w: 40}\<close>, outline width 1, initial index 1.\<close>

definition scenario_props :: "string props" where
  "scenario_props =
     \<lparr>segments = Some [''a'', ''b'', ''c''],
      onChangeIndex = Some HostCallback,
      initialIndex = Some 1,
      outlineWidth = Some 1\<rparr>"

definition scenario_events :: "event list" where
  "scenario_events =
     [Layout 0 \<lparr>seg_x = 0, seg_width = 50\<rparr>,
      Layout 1 \<lparr>seg_x = 52, seg_width = 60\<rparr>,
      Layout 2 \<lparr>seg_x = 114, seg_width = 40\<rparr>]"

definition scenario_state :: state where
  "scenario_state = run scenario_props (init scenario_props) scenario_events"

text \<open>Two segments and defaults for everything else.\<close>

definition two_props :: "string props" where
  "two_props =
     \<lparr>segments = Some [''a'', ''b''],
      onChangeIndex = Some HostCallback,
      initialIndex = None,
      outlineWidth = None\<rparr>"

text \<open>An empty list of segments.\<close>

definition empty_props :: "string props" where
  "empty_props =
     \<lparr>segments = Some [],
      onChangeIndex = None,
      initialIndex = None,
      outlineWidth = None\<rparr>"

text \<open>No \<^verbatim>\<open>segments\<close> prop at all.\<close>

definition undefined_props :: "string props" where
  "undefined_props =
     \<lparr>segments = None,
      onChangeIndex = None,
      initialIndex = None,
      outlineWidth = None\<rparr>"

text \<open>A single segment.\<close>

definition one_props :: "string props" where
  "one_props =
     \<lparr>segments = Some [''a''],
      onChangeIndex = None,
      initialIndex = None,
      outlineWidth = None\<rparr>"

text \<open>Two segments and an \<^verbatim>\<open>initialIndex\<close> that is not the index of a segment.\<close>

definition far_props :: "string props" where
  "far_props =
     \<lparr>segments = Some [''a'', ''b''],
      onChangeIndex = None,
      initialIndex = Some 5,
      outlineWidth = None\<rparr>"

section \<open>Handlers and runs: what changes and what does not\<close>

lemma press_frame:
  "segmentsStyle (onSegmentPress p i s) = segmentsStyle s"
  "segmentsCounter (onSegmentPress p i s) = segmentsCounter s"
  by (simp_all add: onSegmentPress_def updateSelectedSegment_def setSelectedSegment_def
      timing_start_def call_onChangeIndex_def split: option.split)

lemma layout_table:
  "segmentsStyle (onLayout p i g s) = array_set (segmentsStyle s) i g"
  "segmentsCounter (onLayout p i g s) = Suc (segmentsCounter s)"
  by (simp_all add: onLayout_def setSelectedSegment_def Let_def)

lemma run_Nil: "run p s [] = s"
  by (simp add: run_def)

lemma run_Cons: "run p s (e # es) = run p (handle p s e) es"
  by (simp add: run_def)

lemma run_append: "run p s (es @ es') = run p (run p s es) es'"
  by (simp add: run_def)

lemma run_counter: "segmentsCounter (run p s es) = segmentsCounter s + length (layouts es)"
proof (induction es arbitrary: s)
  case Nil
  show ?case by (simp add: run_Nil)
next
  case (Cons e es)
  show ?case by (cases e) (simp_all add: run_Cons Cons.IH press_frame layout_table)
qed

lemma run_table: "segmentsStyle (run p s es) = record_reports (segmentsStyle s) (layouts es)"
proof (induction es arbitrary: s)
  case Nil
  show ?case by (simp add: run_Nil)
next
  case (Cons e es)
  show ?case by (cases e) (simp_all add: run_Cons Cons.IH press_frame layout_table)
qed

lemma length_array_set:
  "length (array_set t i g) = (if i < 0 then length t else max (length t) (Suc (nat i)))"
  by (auto simp: array_set_def)

lemma read_array_set:
  "read_at (array_set t i g) j = (if i = int j then Some g else read_at t j)"
  by (auto simp: array_set_def read_at_def nth_append nth_list_update)

lemma read_record_other:
  "int j \<notin> fst ` set rs \<Longrightarrow> read_at (record_reports t rs) j = read_at t j"
  by (induction t rs rule: record_reports.induct) (auto simp: read_array_set)

lemma read_record_reported:
  "distinct (map fst rs) \<Longrightarrow> (int j, g) \<in> set rs \<Longrightarrow> read_at (record_reports t rs) j = Some g"
proof (induction t rs rule: record_reports.induct)
  case (1 t)
  then show ?case by simp
next
  case (2 t index g' rs)
  show ?case
  proof (cases "index = int j")
    case True
    with 2 have "g' = g" by (auto simp: image_iff)
    moreover from True 2 have "int j \<notin> fst ` set rs" by auto
    ultimately show ?thesis using True by (simp add: read_record_other read_array_set)
  next
    case False
    with 2 show ?thesis by auto
  qed
qed

lemma length_record_mono: "length t \<le> length (record_reports t rs)"
proof (induction t rs rule: record_reports.induct)
  case (1 t)
  show ?case by simp
next
  case (2 t index g rs)
  have "length t \<le> length (array_set t index g)" by (simp add: length_array_set)
  with 2 show ?case by simp
qed

lemma length_record_upper:
  "length t \<le> n \<Longrightarrow> \<forall>i \<in> fst ` set rs. i < int n \<Longrightarrow> length (record_reports t rs) \<le> n"
proof (induction t rs rule: record_reports.induct)
  case (1 t)
  then show ?case by simp
next
  case (2 t index g rs)
  from 2(2,3) have "length (array_set t index g) \<le> n" by (auto simp: length_array_set)
  with 2 show ?case by simp
qed

lemma length_record_lower:
  "(int j, g) \<in> set rs \<Longrightarrow> j < length (record_reports t rs)"
proof (induction t rs rule: record_reports.induct)
  case (1 t)
  then show ?case by simp
next
  case (2 t index g' rs)
  show ?case
  proof (cases "(int j, g) \<in> set rs")
    case True
    with 2 show ?thesis by simp
  next
    case False
    with 2 have "index = int j" by auto
    then have "j < length (array_set t index g')" by (simp add: length_array_set)
    also have "\<dots> \<le> length (record_reports (array_set t index g') rs)" by (rule length_record_mono)
    finally show ?thesis by simp
  qed
qed

section \<open>Every segment reported once: the geometry table\<close>

lemma once_distinct: "each_reported_once n es \<Longrightarrow> distinct (map fst (layouts es))"
proof -
  assume "each_reported_once n es"
  then have "distinct (sort (map fst (layouts es)))"
    by (simp add: each_reported_once_def distinct_map)
  then show ?thesis by simp
qed

lemma once_set: "each_reported_once n es \<Longrightarrow> fst ` set (layouts es) = int ` {0..<n}"
proof -
  assume "each_reported_once n es"
  then have "set (sort (map fst (layouts es))) = set (map int [0..<n])"
    by (simp add: each_reported_once_def)
  then show ?thesis by simp
qed

lemma once_length: "each_reported_once n es \<Longrightarrow> length (layouts es) = n"
proof -
  assume "each_reported_once n es"
  then have "length (sort (map fst (layouts es))) = length (map int [0..<n])"
    by (simp add: each_reported_once_def)
  then show ?thesis by simp
qed

lemma once_reported:
  assumes "each_reported_once n es" and "j < n"
  shows "\<exists>g. (int j, g) \<in> set (layouts es)"
proof -
  from assms have "int j \<in> fst ` set (layouts es)" by (simp add: once_set)
  then show ?thesis by force
qed

lemma once_in_range:
  assumes "each_reported_once n es" and "(int j, g) \<in> set (layouts es)"
  shows "j < n"
proof -
  from assms(2) have "int j \<in> fst ` set (layouts es)" by force
  with assms(1) show ?thesis by (auto simp: once_set)
qed

lemma once_table_length:
  assumes "each_reported_once n es"
  shows "length (record_reports [] (layouts es)) = n"
proof (rule antisym)
  from assms have "\<forall>i \<in> fst ` set (layouts es). i < int n" by (auto simp: once_set)
  then show "length (record_reports [] (layouts es)) \<le> n"
    by (intro length_record_upper) simp_all
next
  show "n \<le> length (record_reports [] (layouts es))"
  proof (cases n)
    case 0
    then show ?thesis by simp
  next
    case (Suc m)
    with assms obtain g where "(int m, g) \<in> set (layouts es)"
      using once_reported [of n es m] by auto
    then have "m < length (record_reports [] (layouts es))" by (rule length_record_lower)
    with Suc show ?thesis by simp
  qed
qed

lemma once_table_entry:
  assumes "each_reported_once n es" and "(int j, g) \<in> set (layouts es)"
  shows "record_reports [] (layouts es) ! j = Some g"
proof -
  have "read_at (record_reports [] (layouts es)) j = Some g"
    using assms by (intro read_record_reported once_distinct)
  moreover have "j < length (record_reports [] (layouts es))"
    using assms by (simp add: once_table_length once_in_range)
  ultimately show ?thesis by (simp add: read_at_def)
qed

lemma once_table_full:
  assumes "each_reported_once n es"
  shows "None \<notin> set (record_reports [] (layouts es))"
proof
  assume "None \<in> set (record_reports [] (layouts es))"
  then obtain j where j: "j < length (record_reports [] (layouts es))"
    and none: "record_reports [] (layouts es) ! j = None"
    by (auto simp: in_set_conv_nth)
  from j assms have "j < n" by (simp add: once_table_length)
  with assms obtain g where "(int j, g) \<in> set (layouts es)"
    using once_reported by blast
  with assms have "record_reports [] (layouts es) ! j = Some g" by (rule once_table_entry)
  with none show False by simp
qed

lemma map_segments_full:
  "None \<notin> set t \<Longrightarrow> map_segments f t = Inr (map (\<lambda>segment. f (the segment)) t)"
  by (induction f t rule: map_segments.induct) auto

lemma configs_full:
  assumes "None \<notin> set (segmentsStyle s)"
  shows "left_config p s =
           Inr \<lparr>inputRange = times (segmentsCounter s),
                outputRange = map (\<lambda>segment. seg_x (the segment) - outlineWidth_of p)
                                (segmentsStyle s)\<rparr>"
    and "width_config s =
           Inr \<lparr>inputRange = times (segmentsCounter s),
                outputRange = map (\<lambda>segment. seg_width (the segment)) (segmentsStyle s)\<rparr>"
  using assms by (simp_all add: left_config_def width_config_def map_segments_full)

lemma interpolate_accepts:
  "2 \<le> length outs \<Longrightarrow>
     interpolate \<lparr>inputRange = times (length outs), outputRange = outs\<rparr>
       = Inr \<lparr>inputRange = times (length outs), outputRange = outs\<rparr>"
  by (simp add: interpolate_def times_def)

lemma getAnimatedStyle_full:
  assumes "Some (segmentsCounter s) = segments_length p" and "None \<notin> set (segmentsStyle s)"
    and "length (segmentsStyle s) = segmentsCounter s" and "2 \<le> segmentsCounter s"
  shows "getAnimatedStyle p s =
           Inr (Some \<lparr>width_node =
                        \<lparr>inputRange = times (segmentsCounter s),
                         outputRange = map (\<lambda>segment. seg_width (the segment)) (segmentsStyle s)\<rparr>,
                      left_node =
                        \<lparr>inputRange = times (segmentsCounter s),
                         outputRange = map (\<lambda>segment. seg_x (the segment) - outlineWidth_of p)
                                         (segmentsStyle s)\<rparr>\<rparr>)"
proof -
  have l: "interpolate \<lparr>inputRange = times (segmentsCounter s),
                outputRange = map (\<lambda>segment. seg_x (the segment) - outlineWidth_of p)
                                (segmentsStyle s)\<rparr>
      = Inr \<lparr>inputRange = times (segmentsCounter s),
                outputRange = map (\<lambda>segment. seg_x (the segment) - outlineWidth_of p)
                                (segmentsStyle s)\<rparr>"
    using interpolate_accepts
      [of "map (\<lambda>segment. seg_x (the segment) - outlineWidth_of p) (segmentsStyle s)"]
      assms(3,4) by simp
  have w: "interpolate \<lparr>inputRange = times (segmentsCounter s),
                outputRange = map (\<lambda>segment. seg_width (the segment)) (segmentsStyle s)\<rparr>
      = Inr \<lparr>inputRange = times (segmentsCounter s),
                outputRange = map (\<lambda>segment. seg_width (the segment)) (segmentsStyle s)\<rparr>"
    using interpolate_accepts [of "map (\<lambda>segment. seg_width (the segment)) (segmentsStyle s)"]
      assms(3,4) by simp
  show ?thesis
    using assms(1) by (simp add: getAnimatedStyle_def configs_full [OF assms(2)] l w)
qed

lemma upt_two: "[m..<Suc (Suc (m + n))] = m # Suc m # [Suc (Suc m)..<Suc (Suc (m + n))]"
  by (simp add: upt_rec)

lemma piecewise_first:
  "piecewise (zip (map real [m..<m + length (b # d # rest)]) (b # d # rest)) v =
     (if real m \<le> v \<and> v \<le> real m + 1
      then Some (b + (v - real m) * (d - b))
      else piecewise (zip (map real [Suc m..<Suc m + length (d # rest)]) (d # rest)) v)"
proof -
  have "[m..<m + length (b # d # rest)] = m # Suc m # [Suc (Suc m)..<Suc (Suc (m + length rest))]"
    using upt_two [of m "length rest"] by simp
  moreover have "[Suc m..<Suc m + length (d # rest)] = Suc m # [Suc (Suc m)..<Suc (Suc (m + length rest))]"
    by (simp add: upt_rec)
  ultimately show ?thesis by (simp add: add.commute)
qed

lemma piecewise_breakpoint:
  "k < length outs \<Longrightarrow> 2 \<le> length outs \<Longrightarrow>
     piecewise (zip (map real [m..<m + length outs]) outs) (real (m + k)) = Some (outs ! k)"
proof (induction outs arbitrary: m k)
  case Nil
  then show ?case by simp
next
  case (Cons b outs)
  note outer = Cons
  from outer(3) obtain d rest where outs: "outs = d # rest" by (cases outs) auto
  show ?case
  proof (cases k)
    case 0
    then show ?thesis unfolding outs piecewise_first by simp
  next
    case (Suc k')
    with outer(2) have k': "k' < length outs" by simp
    show ?thesis
    proof (cases k')
      case 0
      then show ?thesis using Suc unfolding outs piecewise_first by simp
    next
      case (Suc k'')
      with k' have "2 \<le> length outs" by simp
      with k' have IH: "piecewise (zip (map real [Suc m..<Suc m + length outs]) outs)
          (real (Suc m + k')) = Some (outs ! k')"
        by (rule outer(1))
      from Suc have "\<not> (real (m + k) \<le> real m + 1)" using \<open>k = Suc k'\<close> by simp
      then have "piecewise (zip (map real [m..<m + length (b # outs)]) (b # outs)) (real (m + k))
          = piecewise (zip (map real [Suc m..<Suc m + length outs]) outs) (real (m + k))"
        unfolding outs piecewise_first by simp
      also have "\<dots> = Some (outs ! k')" using IH \<open>k = Suc k'\<close> by simp
      finally show ?thesis using \<open>k = Suc k'\<close> by simp
    qed
  qed
qed

lemma piecewise_halfway:
  "Suc k < length outs \<Longrightarrow>
     piecewise (zip (map real [m..<m + length outs]) outs) (real (m + k) + 1 / 2)
       = Some ((outs ! k + outs ! Suc k) / 2)"
proof (induction outs arbitrary: m k)
  case Nil
  then show ?case by simp
next
  case (Cons b outs)
  note outer = Cons
  from outer(2) obtain d rest where outs: "outs = d # rest" by (cases outs) auto
  show ?case
  proof (cases k)
    case 0
    then show ?thesis unfolding outs piecewise_first by (simp add: field_simps)
  next
    case (Suc k')
    with outer(2) have k': "Suc k' < length outs" by simp
    have IH: "piecewise (zip (map real [Suc m..<Suc m + length outs]) outs) (real (Suc m + k') + 1 / 2)
        = Some ((outs ! k' + outs ! Suc k') / 2)"
      using k' by (rule outer(1))
    have "\<not> (real (m + k) + 1 / 2 \<le> real m + 1)" using Suc by simp
    then have "piecewise (zip (map real [m..<m + length (b # outs)]) (b # outs)) (real (m + k) + 1 / 2)
        = piecewise (zip (map real [Suc m..<Suc m + length outs]) outs) (real (m + k) + 1 / 2)"
      unfolding outs piecewise_first by simp
    also have "\<dots> = Some ((outs ! k' + outs ! Suc k') / 2)" using IH Suc by simp
    finally show ?thesis using Suc by simp
  qed
qed

section \<open>The style of a fully measured control\<close>

lemma layouts_append: "layouts (es @ es') = layouts es @ layouts es'"
  by (induction es rule: layouts.induct) simp_all

lemma presses_append: "presses (es @ es') = presses es @ presses es'"
  by (induction es rule: presses.induct) simp_all

lemma times_length: "length (times n) = n"
  by (simp add: times_def)

lemma node_value_breakpoint:
  assumes "k < length outs" and "2 \<le> length outs"
  shows "node_value \<lparr>inputRange = times (length outs), outputRange = outs\<rparr> (real k) = Some (outs ! k)"
  using piecewise_breakpoint [OF assms, of 0] by (simp add: node_value_def times_def)

lemma node_value_halfway:
  assumes "Suc k < length outs"
  shows "node_value \<lparr>inputRange = times (length outs), outputRange = outs\<rparr> (real k + 1 / 2)
           = Some ((outs ! k + outs ! Suc k) / 2)"
  using piecewise_halfway [OF assms, of 0] by (simp add: node_value_def times_def)

lemma init_fields:
  "segmentsStyle (init p) = []" "segmentsCounter (init p) = 0"
  "selectedSegment (init p) = - 1" "trace (init p) = []"
  by (simp_all add: init_def)

lemma measured_counter:
  assumes "each_reported_once n es"
  shows "segmentsCounter (run p (init p) es) = n"
  using assms by (simp add: run_counter init_fields once_length)

lemma measured_table:
  "segmentsStyle (run p (init p) es) = record_reports [] (layouts es)"
  by (simp add: run_table init_fields)

lemma measured_configs:
  assumes "segments p = Some segs" and "each_reported_once (length segs) es"
  shows "left_config p (run p (init p) es) =
           Inr \<lparr>inputRange = times (length segs),
                outputRange = map (\<lambda>segment. seg_x (the segment) - outlineWidth_of p)
                                (record_reports [] (layouts es))\<rparr>"
    and "width_config (run p (init p) es) =
           Inr \<lparr>inputRange = times (length segs),
                outputRange = map (\<lambda>segment. seg_width (the segment))
                                (record_reports [] (layouts es))\<rparr>"
proof -
  have full: "None \<notin> set (segmentsStyle (run p (init p) es))"
    using assms(2) by (simp add: measured_table once_table_full)
  show "left_config p (run p (init p) es) =
           Inr \<lparr>inputRange = times (length segs),
                outputRange = map (\<lambda>segment. seg_x (the segment) - outlineWidth_of p)
                                (record_reports [] (layouts es))\<rparr>"
    using assms(2) by (simp add: configs_full [OF full] measured_table measured_counter)
  show "width_config (run p (init p) es) =
           Inr \<lparr>inputRange = times (length segs),
                outputRange = map (\<lambda>segment. seg_width (the segment))
                                (record_reports [] (layouts es))\<rparr>"
    using assms(2) by (simp add: configs_full [OF full] measured_table measured_counter)
qed

lemma measured_style:
  assumes "segments p = Some segs" and "each_reported_once (length segs) es"
    and "2 \<le> length segs"
  shows "getAnimatedStyle p (run p (init p) es) =
           Inr (Some \<lparr>width_node =
                        \<lparr>inputRange = times (length segs),
                         outputRange = map (\<lambda>segment. seg_width (the segment))
                                         (record_reports [] (layouts es))\<rparr>,
                      left_node =
                        \<lparr>inputRange = times (length segs),
                         outputRange = map (\<lambda>segment. seg_x (the segment) - outlineWidth_of p)
                                         (record_reports [] (layouts es))\<rparr>\<rparr>)"
proof -
  have "Some (segmentsCounter (run p (init p) es)) = segments_length p"
    using assms by (simp add: measured_counter segments_length_def)
  moreover have "None \<notin> set (segmentsStyle (run p (init p) es))"
    using assms(2) by (simp add: measured_table once_table_full)
  moreover have "length (segmentsStyle (run p (init p) es)) = segmentsCounter (run p (init p) es)"
    using assms(2) by (simp add: measured_table measured_counter once_table_length)
  moreover have "2 \<le> segmentsCounter (run p (init p) es)"
    using assms(2,3) by (simp add: measured_counter)
  ultimately show ?thesis
    using assms(2) by (simp add: getAnimatedStyle_full measured_table measured_counter)
qed

lemma measured_highlight_breakpoint:
  assumes "segments p = Some segs" and "each_reported_once (length segs) es"
    and "2 \<le> length segs" and "(int k, g) \<in> set (layouts es)"
  shows "highlight_at p (run p (init p) es) (real k) =
           Some \<lparr>left_px = seg_x g - outlineWidth_of p, width_px = seg_width g\<rparr>"
proof -
  let ?t = "record_reports [] (layouts es)"
  have len: "length ?t = length segs" using assms(2) by (rule once_table_length)
  have k: "k < length segs" using assms(2,4) by (rule once_in_range)
  have entry: "?t ! k = Some g" using assms(2,4) by (rule once_table_entry)
  have l: "node_value \<lparr>inputRange = times (length segs),
                         outputRange = map (\<lambda>segment. seg_x (the segment) - outlineWidth_of p) ?t\<rparr>
             (real k) = Some (seg_x g - outlineWidth_of p)"
    using node_value_breakpoint [of k "map (\<lambda>segment. seg_x (the segment) - outlineWidth_of p) ?t"]
      k len entry assms(3) by simp
  have w: "node_value \<lparr>inputRange = times (length segs),
                         outputRange = map (\<lambda>segment. seg_width (the segment)) ?t\<rparr>
             (real k) = Some (seg_width g)"
    using node_value_breakpoint [of k "map (\<lambda>segment. seg_width (the segment)) ?t"]
      k len entry assms(3) by simp
  show ?thesis
    by (simp add: highlight_at_def measured_style [OF assms(1,2,3)] style_at_def l w)
qed

lemma measured_highlight_halfway:
  assumes "segments p = Some segs" and "each_reported_once (length segs) es"
    and "(int k, g) \<in> set (layouts es)" and "(int (Suc k), g') \<in> set (layouts es)"
  shows "highlight_at p (run p (init p) es) (real k + 1 / 2) =
           Some \<lparr>left_px = ((seg_x g - outlineWidth_of p) + (seg_x g' - outlineWidth_of p)) / 2,
                 width_px = (seg_width g + seg_width g') / 2\<rparr>"
proof -
  let ?t = "record_reports [] (layouts es)"
  have len: "length ?t = length segs" using assms(2) by (rule once_table_length)
  have k: "Suc k < length segs" using assms(2,4) by (rule once_in_range)
  then have two: "2 \<le> length segs" by simp
  have entry: "?t ! k = Some g" using assms(2,3) by (rule once_table_entry)
  have entry': "?t ! Suc k = Some g'" using assms(2,4) by (rule once_table_entry)
  have l: "node_value \<lparr>inputRange = times (length segs),
                         outputRange = map (\<lambda>segment. seg_x (the segment) - outlineWidth_of p) ?t\<rparr>
             (real k + 1 / 2)
           = Some (((seg_x g - outlineWidth_of p) + (seg_x g' - outlineWidth_of p)) / 2)"
    using node_value_halfway [of k "map (\<lambda>segment. seg_x (the segment) - outlineWidth_of p) ?t"]
      k len entry entry' by simp
  have w: "node_value \<lparr>inputRange = times (length segs),
                         outputRange = map (\<lambda>segment. seg_width (the segment)) ?t\<rparr>
             (real k + 1 / 2) = Some ((seg_width g + seg_width g') / 2)"
    using node_value_halfway [of k "map (\<lambda>segment. seg_width (the segment)) ?t"]
      k len entry entry' by simp
  show ?thesis
    by (simp add: highlight_at_def measured_style [OF assms(1,2) two] style_at_def l w)
qed

lemma scenario_state_eq:
  "scenario_state =
     \<lparr>selectedSegment = 1,
      segmentsStyle =
        [Some \<lparr>seg_x = 0, seg_width = 50\<rparr>, Some \<lparr>seg_x = 52, seg_width = 60\<rparr>,
         Some \<lparr>seg_x = 114, seg_width = 40\<rparr>],
      segmentsCounter = 3,
      animatedValue = \<lparr>constructed = 1, started = None\<rparr>,
      trace = [SetSelectedSegment 1]\<rparr>"
  by (simp add: scenario_state_def scenario_props_def scenario_events_def run_def init_def
      onLayout_def array_set_def segments_length_def initialIndex_of_def setSelectedSegment_def
      Let_def)

lemma scenario_once: "each_reported_once 3 scenario_events"
  by (simp add: each_reported_once_def scenario_events_def upt_rec)

section \<open>The gate: before, at and past it\<close>

lemma layout_off_gate:
  assumes "Some (Suc (segmentsCounter s)) \<noteq> segments_length p"
  shows "selectedSegment (onLayout p j g s) = selectedSegment s"
    and "trace (onLayout p j g s) = trace s"
    and "animatedValue (onLayout p j g s) = animatedValue s"
  using assms by (simp_all add: onLayout_def Let_def)

lemma layout_on_gate:
  assumes "Some (Suc (segmentsCounter s)) = segments_length p"
  shows "selectedSegment (onLayout p j g s) = initialIndex_of p"
    and "trace (onLayout p j g s) = trace s @ [SetSelectedSegment (initialIndex_of p)]"
    and "animatedValue (onLayout p j g s) = animatedValue s"
  using assms by (simp_all add: onLayout_def Let_def setSelectedSegment_def)

lemma quiet_layouts:
  assumes "segments_length p = Some n" and "presses es = []"
    and "segmentsCounter s + length (layouts es) < n"
  shows "selectedSegment (run p s es) = selectedSegment s
       \<and> trace (run p s es) = trace s
       \<and> animatedValue (run p s es) = animatedValue s"
  using assms(2,3)
proof (induction es arbitrary: s)
  case Nil
  show ?case by (simp add: run_Nil)
next
  case (Cons e es)
  show ?case
  proof (cases e)
    case (Press i)
    with Cons.prems show ?thesis by simp
  next
    case (Layout j g)
    from Cons.prems Layout have off: "Some (Suc (segmentsCounter s)) \<noteq> segments_length p"
      by (simp add: assms(1))
    from Cons.prems Layout
    have "presses es = []" and "segmentsCounter (onLayout p j g s) + length (layouts es) < n"
      by (simp_all add: layout_table)
    then have "selectedSegment (run p (onLayout p j g s) es) = selectedSegment (onLayout p j g s)
       \<and> trace (run p (onLayout p j g s) es) = trace (onLayout p j g s)
       \<and> animatedValue (run p (onLayout p j g s) es) = animatedValue (onLayout p j g s)"
      by (rule Cons.IH)
    then show ?thesis by (simp add: Layout run_Cons layout_off_gate [OF off])
  qed
qed

lemma presses_Nil_last:
  assumes "presses (es @ [e]) = []"
  shows "presses es = [] \<and> (\<exists>j g. e = Layout j g)"
  using assms by (cases e) (simp_all add: presses_append)

lemma gate_layouts:
  assumes "segments_length p = Some n" and "presses es = []" and "es \<noteq> []"
    and "segmentsCounter s + length (layouts es) = n"
  shows "selectedSegment (run p s es) = initialIndex_of p
       \<and> trace (run p s es) = trace s @ [SetSelectedSegment (initialIndex_of p)]
       \<and> animatedValue (run p s es) = animatedValue s"
proof -
  from assms(3) obtain es' e where es: "es = es' @ [e]" by (cases es rule: rev_cases) auto
  with assms(2) obtain j g where quiet: "presses es' = []" and e: "e = Layout j g"
    using presses_Nil_last by blast
  let ?s' = "run p s es'"
  from assms(4) es e have before: "segmentsCounter s + length (layouts es') < n"
    by (simp add: layouts_append)
  have frame: "selectedSegment ?s' = selectedSegment s \<and> trace ?s' = trace s
      \<and> animatedValue ?s' = animatedValue s"
    using assms(1) quiet before by (rule quiet_layouts)
  from assms(4) es e have "Some (Suc (segmentsCounter ?s')) = segments_length p"
    by (simp add: run_counter layouts_append assms(1))
  note on = layout_on_gate [OF this]
  have "run p s es = onLayout p j g ?s'" by (simp add: es e run_append run_Cons run_Nil)
  then show ?thesis using on [of j g] frame by simp
qed

lemma press_depends:
  assumes "selectedSegment s = selectedSegment s'" and "trace s = trace s'"
    and "animatedValue s = animatedValue s'"
  shows "selectedSegment (onSegmentPress p i s) = selectedSegment (onSegmentPress p i s')"
    and "trace (onSegmentPress p i s) = trace (onSegmentPress p i s')"
    and "animatedValue (onSegmentPress p i s) = animatedValue (onSegmentPress p i s')"
  using assms
  by (simp_all add: onSegmentPress_def updateSelectedSegment_def setSelectedSegment_def
      timing_start_def call_onChangeIndex_def split: option.split)

lemma off_gate_layouts:
  assumes "segments_length p = Some n"
  shows "n \<le> segmentsCounter s \<or> segmentsCounter s + length (layouts es) < n \<Longrightarrow>
     selectedSegment s = selectedSegment s' \<Longrightarrow>
     trace s = trace s' \<Longrightarrow> animatedValue s = animatedValue s' \<Longrightarrow>
     selectedSegment (run p s es) = selectedSegment (run p s' (presses es))
     \<and> trace (run p s es) = trace (run p s' (presses es))
     \<and> animatedValue (run p s es) = animatedValue (run p s' (presses es))"
proof (induction es arbitrary: s s')
  case Nil
  then show ?case by (simp add: run_Nil)
next
  case (Cons e es)
  show ?case
  proof (cases e)
    case (Press i)
    have "n \<le> segmentsCounter (onSegmentPress p i s)
        \<or> segmentsCounter (onSegmentPress p i s) + length (layouts es) < n"
      using Cons.prems(1) by (simp add: press_frame Press)
    then have "selectedSegment (run p (onSegmentPress p i s) es)
         = selectedSegment (run p (onSegmentPress p i s') (presses es))
       \<and> trace (run p (onSegmentPress p i s) es) = trace (run p (onSegmentPress p i s') (presses es))
       \<and> animatedValue (run p (onSegmentPress p i s) es)
         = animatedValue (run p (onSegmentPress p i s') (presses es))"
      using press_depends [OF Cons.prems(2,3,4)] by (rule Cons.IH)
    then show ?thesis by (simp add: Press run_Cons)
  next
    case (Layout j g)
    from Cons.prems(1) have off: "Some (Suc (segmentsCounter s)) \<noteq> segments_length p"
      by (auto simp: assms Layout)
    have "n \<le> segmentsCounter (onLayout p j g s)
        \<or> segmentsCounter (onLayout p j g s) + length (layouts es) < n"
      using Cons.prems(1) by (auto simp: layout_table Layout)
    then have "selectedSegment (run p (onLayout p j g s) es) = selectedSegment (run p s' (presses es))
       \<and> trace (run p (onLayout p j g s) es) = trace (run p s' (presses es))
       \<and> animatedValue (run p (onLayout p j g s) es) = animatedValue (run p s' (presses es))"
      using Cons.prems(2,3,4) by (intro Cons.IH) (simp_all add: layout_off_gate [OF off])
    then show ?thesis by (simp add: Layout run_Cons)
  qed
qed

lemma undefined_off_gate:
  "Some (segmentsCounter s) \<noteq> segments_length p \<Longrightarrow> getAnimatedStyle p s = Inr None"
  by (simp add: getAnimatedStyle_def)

lemma press_selected:
  "selectedSegment (onSegmentPress p i s) = i"
  by (simp add: onSegmentPress_def updateSelectedSegment_def setSelectedSegment_def
      timing_start_def call_onChangeIndex_def split: option.split)

lemma selection_invariant:
  assumes "segments_length p = Some n"
    and "0 \<le> initialIndex_of p" and "initialIndex_of p < int n"
  shows "list_all (press_in_range n) es \<Longrightarrow>
     selectedSegment s = - 1 \<or> (0 \<le> selectedSegment s \<and> selectedSegment s < int n) \<Longrightarrow>
     n \<le> segmentsCounter s \<longrightarrow> (0 \<le> selectedSegment s \<and> selectedSegment s < int n) \<Longrightarrow>
     (selectedSegment (run p s es) = - 1
        \<or> (0 \<le> selectedSegment (run p s es) \<and> selectedSegment (run p s es) < int n))
     \<and> (n \<le> segmentsCounter (run p s es) \<longrightarrow>
          (0 \<le> selectedSegment (run p s es) \<and> selectedSegment (run p s es) < int n))"
proof (induction es arbitrary: s)
  case Nil
  then show ?case by (simp add: run_Nil)
next
  case (Cons e es)
  from Cons.prems(1) have rest: "list_all (press_in_range n) es" by simp
  show ?case
  proof (cases e)
    case (Press i)
    with Cons.prems(1) have i: "0 \<le> i \<and> i < int n" by simp
    have "(selectedSegment (run p (onSegmentPress p i s) es) = - 1
        \<or> (0 \<le> selectedSegment (run p (onSegmentPress p i s) es)
            \<and> selectedSegment (run p (onSegmentPress p i s) es) < int n))
     \<and> (n \<le> segmentsCounter (run p (onSegmentPress p i s) es) \<longrightarrow>
          (0 \<le> selectedSegment (run p (onSegmentPress p i s) es)
            \<and> selectedSegment (run p (onSegmentPress p i s) es) < int n))"
      using rest i by (intro Cons.IH) (simp_all add: press_selected)
    then show ?thesis by (simp add: Press run_Cons)
  next
    case (Layout j g)
    have sel: "selectedSegment (onLayout p j g s) =
        (if Suc (segmentsCounter s) = n then initialIndex_of p else selectedSegment s)"
      by (simp add: onLayout_def Let_def setSelectedSegment_def assms(1))
    have "(selectedSegment (run p (onLayout p j g s) es) = - 1
        \<or> (0 \<le> selectedSegment (run p (onLayout p j g s) es)
            \<and> selectedSegment (run p (onLayout p j g s) es) < int n))
     \<and> (n \<le> segmentsCounter (run p (onLayout p j g s) es) \<longrightarrow>
          (0 \<le> selectedSegment (run p (onLayout p j g s) es)
            \<and> selectedSegment (run p (onLayout p j g s) es) < int n))"
    proof (intro Cons.IH rest)
      show "selectedSegment (onLayout p j g s) = - 1 \<or>
          0 \<le> selectedSegment (onLayout p j g s) \<and> selectedSegment (onLayout p j g s) < int n"
        using Cons.prems(2) assms(2,3) by (simp add: sel)
      show "n \<le> segmentsCounter (onLayout p j g s) \<longrightarrow>
          0 \<le> selectedSegment (onLayout p j g s) \<and> selectedSegment (onLayout p j g s) < int n"
        using Cons.prems(3) assms(2,3) by (auto simp: sel layout_table)
    qed
    then show ?thesis by (simp add: Layout run_Cons)
  qed
qed

section \<open>Pressing a segment\<close>

text \<open>
  C4. Pressing the index that is already \<^verbatim>\<open>selectedSegment\<close> changes nothing: the whole
  state (selection, geometry table, counter, animated value and its target) is the
  state before, and the trace gains no entry, so \<^verbatim>\<open>onChangeIndex\<close> is not invoked and
  no animation is started.
\<close>

theorem press_selected_noop:
  "onSegmentPress p (selectedSegment s) s = s"
  by (simp add: onSegmentPress_def)

theorem press_selected_noop_witness:
  "onSegmentPress scenario_props 1 scenario_state = scenario_state"
  using press_selected_noop [of scenario_props scenario_state]
  by (simp add: scenario_state_eq)

text \<open>
  C1. Pressing an index \<open>i\<close> other than \<^verbatim>\<open>selectedSegment\<close>: the trace gains, in this
  order, the call \<^verbatim>\<open>onChangeIndex(i)\<close> (once, when the prop is given), the start of a
  timing animation to \<open>i\<close> of 300 ms with easing bezier(0.33, 1, 0.68, 1), and the state
  update; afterwards \<^verbatim>\<open>selectedSegment\<close> is \<open>i\<close> and the animated value heads to \<open>i\<close>.
  The geometry table and the counter are untouched.
\<close>

theorem press_other_index:
  assumes "selectedSegment s \<noteq> i"
  shows "trace (onSegmentPress p i s) =
           trace s
           @ (case onChangeIndex p of None \<Rightarrow> [] | Some cb \<Rightarrow> [OnChangeIndex i])
           @ [TimingStart \<lparr>toValue = i, duration = 300,
                           easing = Bezier (33 / 100) 1 (68 / 100) 1\<rparr>,
              SetSelectedSegment i]
       \<and> selectedSegment (onSegmentPress p i s) = i
       \<and> started (animatedValue (onSegmentPress p i s)) =
           Some \<lparr>toValue = i, duration = 300, easing = Bezier (33 / 100) 1 (68 / 100) 1\<rparr>
       \<and> target (animatedValue (onSegmentPress p i s)) = i
       \<and> segmentsStyle (onSegmentPress p i s) = segmentsStyle s
       \<and> segmentsCounter (onSegmentPress p i s) = segmentsCounter s"
  using assms
  by (simp add: onSegmentPress_def updateSelectedSegment_def setSelectedSegment_def
      timing_start_def press_config_def call_onChangeIndex_def target_def
      split: option.split)

text \<open>The scenario of the specification: index 2 is pressed while index 1 is selected.\<close>

theorem press_other_index_witness:
  "selectedSegment scenario_state \<noteq> 2
   \<and> trace (onSegmentPress scenario_props 2 scenario_state) =
       [SetSelectedSegment 1,
        OnChangeIndex 2,
        TimingStart \<lparr>toValue = 2, duration = 300, easing = Bezier (33 / 100) 1 (68 / 100) 1\<rparr>,
        SetSelectedSegment 2]
   \<and> selectedSegment (onSegmentPress scenario_props 2 scenario_state) = 2
   \<and> target (animatedValue (onSegmentPress scenario_props 2 scenario_state)) = 2"
  using press_other_index [of scenario_state 2 scenario_props]
  by (simp add: scenario_state_eq scenario_props_def)

section \<open>The first activation\<close>

text \<open>
  C2. Right after the layout report that completes the set (every segment has then
  reported exactly once, so there is at least one segment), \<^verbatim>\<open>selectedSegment\<close> is the
  configured \<^verbatim>\<open>initialIndex\<close>. The layout reports have contributed one effect only, that
  state update: the trace is the trace of the presses made meanwhile, followed by it.
  With no press the update is the whole trace, and \<^verbatim>\<open>onChangeIndex\<close> has not been invoked.
\<close>

theorem initial_selection_after_layout:
  assumes "segments p = Some segs"
    and "each_reported_once (length segs) (es @ [Layout j g])"
  shows "selectedSegment (run p (init p) (es @ [Layout j g])) = initialIndex_of p
       \<and> trace (run p (init p) (es @ [Layout j g])) =
           trace (run p (init p) (presses es)) @ [SetSelectedSegment (initialIndex_of p)]
       \<and> (presses es = [] \<longrightarrow>
            trace (run p (init p) (es @ [Layout j g])) = [SetSelectedSegment (initialIndex_of p)]
            \<and> OnChangeIndex i \<notin> set (trace (run p (init p) (es @ [Layout j g]))))"
proof -
  let ?s' = "run p (init p) es"
  have len: "segments_length p = Some (length segs)"
    using assms(1) by (simp add: segments_length_def)
  have n: "Suc (length (layouts es)) = length segs"
    using once_length [OF assms(2)] by (simp add: layouts_append)
  then have "length segs \<le> segmentsCounter (init p)
      \<or> segmentsCounter (init p) + length (layouts es) < length segs"
    by (simp add: init_fields)
  then have before: "selectedSegment ?s' = selectedSegment (run p (init p) (presses es))
     \<and> trace ?s' = trace (run p (init p) (presses es))
     \<and> animatedValue ?s' = animatedValue (run p (init p) (presses es))"
    by (intro off_gate_layouts [OF len]) simp_all
  have "Some (Suc (segmentsCounter ?s')) = segments_length p"
    using n by (simp add: run_counter init_fields len)
  note on = layout_on_gate [OF this, of j g]
  have "run p (init p) (es @ [Layout j g]) = onLayout p j g ?s'"
    by (simp add: run_append run_Cons run_Nil)
  then have "selectedSegment (run p (init p) (es @ [Layout j g])) = initialIndex_of p
       \<and> trace (run p (init p) (es @ [Layout j g])) =
           trace (run p (init p) (presses es)) @ [SetSelectedSegment (initialIndex_of p)]"
    using on before by simp
  then show ?thesis by (auto simp: run_Nil init_fields)
qed

text \<open>The scenario of the specification, and the same reports with segment 2 pressed
  before the last of them.\<close>

theorem initial_selection_after_layout_witness:
  "segments scenario_props = Some [''a'', ''b'', ''c'']
   \<and> each_reported_once 3
       ([Layout 0 \<lparr>seg_x = 0, seg_width = 50\<rparr>, Layout 1 \<lparr>seg_x = 52, seg_width = 60\<rparr>]
        @ [Layout 2 \<lparr>seg_x = 114, seg_width = 40\<rparr>])
   \<and> presses [Layout 0 \<lparr>seg_x = 0, seg_width = 50\<rparr>, Layout 1 \<lparr>seg_x = 52, seg_width = 60\<rparr>] = []
   \<and> selectedSegment scenario_state = 1
   \<and> trace scenario_state = [SetSelectedSegment 1]
   \<and> OnChangeIndex 1 \<notin> set (trace scenario_state)
   \<and> selectedSegment
       (run scenario_props (init scenario_props)
          ([Layout 0 \<lparr>seg_x = 0, seg_width = 50\<rparr>, Press 2, Layout 1 \<lparr>seg_x = 52, seg_width = 60\<rparr>]
           @ [Layout 2 \<lparr>seg_x = 114, seg_width = 40\<rparr>])) = 1"
proof -
  have a: "segments scenario_props = Some [''a'', ''b'', ''c'']"
    by (simp add: scenario_props_def)
  have b: "each_reported_once (length [''a'', ''b'', ''c''])
      ([Layout 0 \<lparr>seg_x = 0, seg_width = 50\<rparr>, Layout 1 \<lparr>seg_x = 52, seg_width = 60\<rparr>]
       @ [Layout 2 \<lparr>seg_x = 114, seg_width = 40\<rparr>])"
    by (simp add: each_reported_once_def upt_rec)
  have c: "each_reported_once (length [''a'', ''b'', ''c''])
      ([Layout 0 \<lparr>seg_x = 0, seg_width = 50\<rparr>, Press 2, Layout 1 \<lparr>seg_x = 52, seg_width = 60\<rparr>]
       @ [Layout 2 \<lparr>seg_x = 114, seg_width = 40\<rparr>])"
    by (simp add: each_reported_once_def upt_rec)
  have d: "initialIndex_of scenario_props = 1"
    by (simp add: initialIndex_of_def scenario_props_def)
  have e: "each_reported_once 3
       ([Layout 0 \<lparr>seg_x = 0, seg_width = 50\<rparr>, Layout 1 \<lparr>seg_x = 52, seg_width = 60\<rparr>]
        @ [Layout 2 \<lparr>seg_x = 114, seg_width = 40\<rparr>])"
    by (simp add: each_reported_once_def upt_rec)
  have f: "scenario_state =
      run scenario_props (init scenario_props)
        ([Layout 0 \<lparr>seg_x = 0, seg_width = 50\<rparr>, Layout 1 \<lparr>seg_x = 52, seg_width = 60\<rparr>]
         @ [Layout 2 \<lparr>seg_x = 114, seg_width = 40\<rparr>])"
    by (simp add: scenario_state_def scenario_events_def)
  show ?thesis
    using initial_selection_after_layout [OF a b, of 1] initial_selection_after_layout [OF a c]
      a e
    unfolding f d by (simp add: run_Nil init_fields)
qed

text \<open>
  C9. A press on an index \<open>i\<close> other than \<open>-1\<close> while \<^verbatim>\<open>selectedSegment\<close> is still \<open>-1\<close>
  and layout reports are still missing is handled like any press: \<^verbatim>\<open>onChangeIndex(i)\<close>
  is invoked (when given), \<^verbatim>\<open>selectedSegment\<close> and the animation target become \<open>i\<close>. When
  the remaining reports bring the counter to the number of segments, \<^verbatim>\<open>selectedSegment\<close>
  is set to \<^verbatim>\<open>initialIndex\<close>; the trace gains only that state update, so \<^verbatim>\<open>onChangeIndex\<close>
  is not invoked, and the animated value keeps heading to \<open>i\<close>.
\<close>

theorem press_before_gate_overridden:
  assumes "selectedSegment s = - 1" and "i \<noteq> - 1"
    and "segments p = Some segs"
    and "presses ls = []" and "ls \<noteq> []"
    and "segmentsCounter s + length (layouts ls) = length segs"
  shows "trace (onSegmentPress p i s) =
           trace s
           @ (case onChangeIndex p of None \<Rightarrow> [] | Some cb \<Rightarrow> [OnChangeIndex i])
           @ [TimingStart \<lparr>toValue = i, duration = 300,
                           easing = Bezier (33 / 100) 1 (68 / 100) 1\<rparr>,
              SetSelectedSegment i]
       \<and> selectedSegment (onSegmentPress p i s) = i
       \<and> target (animatedValue (onSegmentPress p i s)) = i
       \<and> selectedSegment (run p (onSegmentPress p i s) ls) = initialIndex_of p
       \<and> trace (run p (onSegmentPress p i s) ls) =
           trace (onSegmentPress p i s) @ [SetSelectedSegment (initialIndex_of p)]
       \<and> target (animatedValue (run p (onSegmentPress p i s) ls)) = i"
proof -
  let ?s1 = "onSegmentPress p i s"
  from assms(1,2) have ne: "selectedSegment s \<noteq> i" by simp
  have press: "trace ?s1 =
           trace s
           @ (case onChangeIndex p of None \<Rightarrow> [] | Some cb \<Rightarrow> [OnChangeIndex i])
           @ [TimingStart \<lparr>toValue = i, duration = 300,
                           easing = Bezier (33 / 100) 1 (68 / 100) 1\<rparr>,
              SetSelectedSegment i]
       \<and> selectedSegment ?s1 = i \<and> target (animatedValue ?s1) = i"
    using ne
    by (simp add: onSegmentPress_def updateSelectedSegment_def setSelectedSegment_def
        timing_start_def press_config_def call_onChangeIndex_def target_def
        split: option.split)
  have len: "segments_length p = Some (length segs)"
    using assms(3) by (simp add: segments_length_def)
  have "segmentsCounter ?s1 + length (layouts ls) = length segs"
    using assms(6) by (simp add: press_frame)
  with len assms(4,5)
  have "selectedSegment (run p ?s1 ls) = initialIndex_of p
       \<and> trace (run p ?s1 ls) = trace ?s1 @ [SetSelectedSegment (initialIndex_of p)]
       \<and> animatedValue (run p ?s1 ls) = animatedValue ?s1"
    by (intro gate_layouts)
  with press show ?thesis by simp
qed

theorem press_before_gate_overridden_witness:
  "selectedSegment (init two_props) = - 1
   \<and> (1 :: int) \<noteq> - 1
   \<and> segments two_props = Some [''a'', ''b'']
   \<and> presses [Layout 0 \<lparr>seg_x = 0, seg_width = 50\<rparr>, Layout 1 \<lparr>seg_x = 52, seg_width = 60\<rparr>] = []
   \<and> segmentsCounter (init two_props)
       + length (layouts [Layout 0 \<lparr>seg_x = 0, seg_width = 50\<rparr>,
                          Layout 1 \<lparr>seg_x = 52, seg_width = 60\<rparr>]) = 2
   \<and> selectedSegment (onSegmentPress two_props 1 (init two_props)) = 1
   \<and> selectedSegment
       (run two_props (onSegmentPress two_props 1 (init two_props))
          [Layout 0 \<lparr>seg_x = 0, seg_width = 50\<rparr>, Layout 1 \<lparr>seg_x = 52, seg_width = 60\<rparr>]) = 0
   \<and> trace
       (run two_props (onSegmentPress two_props 1 (init two_props))
          [Layout 0 \<lparr>seg_x = 0, seg_width = 50\<rparr>, Layout 1 \<lparr>seg_x = 52, seg_width = 60\<rparr>]) =
       [OnChangeIndex 1,
        TimingStart \<lparr>toValue = 1, duration = 300, easing = Bezier (33 / 100) 1 (68 / 100) 1\<rparr>,
        SetSelectedSegment 1,
        SetSelectedSegment 0]
   \<and> target
       (animatedValue
          (run two_props (onSegmentPress two_props 1 (init two_props))
             [Layout 0 \<lparr>seg_x = 0, seg_width = 50\<rparr>, Layout 1 \<lparr>seg_x = 52, seg_width = 60\<rparr>])) = 1"
  using press_before_gate_overridden
    [of "init two_props" 1 two_props "[''a'', ''b'']"
        "[Layout 0 \<lparr>seg_x = 0, seg_width = 50\<rparr>, Layout 1 \<lparr>seg_x = 52, seg_width = 60\<rparr>]"]
  by (simp add: init_fields two_props_def initialIndex_of_def)

section \<open>The highlight once every segment is measured\<close>

text \<open>
  C3, as it is written, fails twice. A full geometry table is not enough: when segment 0
  of the scenario reports once more after all three have reported, every position of
  the table still holds a rectangle, but the counter is 4, the gate is closed and the
  style is \<^verbatim>\<open>undefined\<close>. And with a single segment the gate opens after its report,
  but the ranges have one element and the driver refuses them, so no style is
  returned at breakpoint 0.
\<close>

theorem breakpoint_counterexample:
  "segmentsStyle
     (run scenario_props (init scenario_props)
        (scenario_events @ [Layout 0 \<lparr>seg_x = 0, seg_width = 50\<rparr>])) =
     [Some \<lparr>seg_x = 0, seg_width = 50\<rparr>, Some \<lparr>seg_x = 52, seg_width = 60\<rparr>,
      Some \<lparr>seg_x = 114, seg_width = 40\<rparr>]
   \<and> getAnimatedStyle scenario_props
       (run scenario_props (init scenario_props)
          (scenario_events @ [Layout 0 \<lparr>seg_x = 0, seg_width = 50\<rparr>])) = Inr None
   \<and> highlight_at scenario_props
       (run scenario_props (init scenario_props)
          (scenario_events @ [Layout 0 \<lparr>seg_x = 0, seg_width = 50\<rparr>])) 1 = None
   \<and> segmentsStyle (run one_props (init one_props) [Layout 0 \<lparr>seg_x = 0, seg_width = 50\<rparr>]) =
       [Some \<lparr>seg_x = 0, seg_width = 50\<rparr>]
   \<and> getAnimatedStyle one_props
       (run one_props (init one_props) [Layout 0 \<lparr>seg_x = 0, seg_width = 50\<rparr>]) =
       Inl InvariantViolation
   \<and> highlight_at one_props
       (run one_props (init one_props) [Layout 0 \<lparr>seg_x = 0, seg_width = 50\<rparr>]) 0 = None"
  by (simp add: scenario_props_def scenario_events_def one_props_def run_def init_def
      onLayout_def array_set_def segments_length_def initialIndex_of_def outlineWidth_of_def
      BORDER_WIDTH_def setSelectedSegment_def Let_def getAnimatedStyle_def highlight_at_def
      left_config_def width_config_def interpolate_def times_def)

text \<open>
  C3, amended. With at least two segments, when every segment has reported its layout
  exactly once, the geometry table holds at position \<open>k\<close> the rectangle \<open>g\<close> that segment
  \<open>k\<close> reported, and at the animated value \<open>k\<close> the highlight is exactly
  \<open>{left: g.x - outlineWidth, width: g.width}\<close>. Presses may have happened in between.
  The value of the interpolation is the piecewise-linear one the specification
  describes, in exact arithmetic.
\<close>

theorem highlight_at_breakpoint:
  assumes "segments p = Some segs" and "2 \<le> length segs"
    and "each_reported_once (length segs) es"
    and "(int k, g) \<in> set (layouts es)"
  shows "segmentsStyle (run p (init p) es) ! k = Some g
       \<and> highlight_at p (run p (init p) es) (real k) =
           Some \<lparr>left_px = seg_x g - outlineWidth_of p, width_px = seg_width g\<rparr>"
  using assms
  by (simp add: measured_table once_table_entry measured_highlight_breakpoint)

text \<open>The scenario of the specification: the animated value rests at \<^verbatim>\<open>initialIndex\<close>,
  which is 1, and the highlight there is \<open>{left: 51, width: 60}\<close>.\<close>

theorem highlight_at_breakpoint_witness:
  "segments scenario_props = Some [''a'', ''b'', ''c'']
   \<and> 2 \<le> length [''a'', ''b'', ''c'']
   \<and> each_reported_once 3 scenario_events
   \<and> (1, \<lparr>seg_x = 52, seg_width = 60\<rparr>) \<in> set (layouts scenario_events)
   \<and> selectedSegment scenario_state = 1
   \<and> target (animatedValue scenario_state) = 1
   \<and> highlight_at scenario_props scenario_state 1 = Some \<lparr>left_px = 51, width_px = 60\<rparr>"
proof -
  have a: "segments scenario_props = Some [''a'', ''b'', ''c'']"
    by (simp add: scenario_props_def)
  have two: "2 \<le> length [''a'', ''b'', ''c'']" by simp
  have b: "(int 1, \<lparr>seg_x = 52, seg_width = 60\<rparr>) \<in> set (layouts scenario_events)"
    by (simp add: scenario_events_def)
  have c: "each_reported_once (length [''a'', ''b'', ''c'']) scenario_events"
    by (simp add: each_reported_once_def scenario_events_def upt_rec)
  have d: "outlineWidth_of scenario_props = 1"
    by (simp add: outlineWidth_of_def scenario_props_def)
  have e: "selectedSegment scenario_state = 1 \<and> target (animatedValue scenario_state) = 1"
    by (simp add: scenario_state_eq target_def)
  show ?thesis
    using highlight_at_breakpoint [OF a two c b] a b scenario_once e
    by (simp add: d scenario_state_def)
qed

text \<open>
  C8, as it is written, fails: when segment 2 of the scenario reports once more after
  all three have reported, the table is still full, but the gate is closed, the style
  is \<^verbatim>\<open>undefined\<close> and there is no highlight halfway between breakpoints 1 and 2, where
  the mean of the two rectangles would be \<open>{left: 82, width: 50}\<close>.
\<close>

theorem halfway_counterexample:
  "segmentsStyle
     (run scenario_props (init scenario_props)
        (scenario_events @ [Layout 2 \<lparr>seg_x = 114, seg_width = 40\<rparr>])) =
     [Some \<lparr>seg_x = 0, seg_width = 50\<rparr>, Some \<lparr>seg_x = 52, seg_width = 60\<rparr>,
      Some \<lparr>seg_x = 114, seg_width = 40\<rparr>]
   \<and> getAnimatedStyle scenario_props
       (run scenario_props (init scenario_props)
          (scenario_events @ [Layout 2 \<lparr>seg_x = 114, seg_width = 40\<rparr>])) = Inr None
   \<and> highlight_at scenario_props
       (run scenario_props (init scenario_props)
          (scenario_events @ [Layout 2 \<lparr>seg_x = 114, seg_width = 40\<rparr>])) (3 / 2) = None"
  by (simp add: scenario_props_def scenario_events_def run_def init_def
      onLayout_def array_set_def segments_length_def initialIndex_of_def
      setSelectedSegment_def Let_def getAnimatedStyle_def highlight_at_def)

text \<open>
  C8, amended. When every segment has reported its layout exactly once, the highlight at
  the animated value \<open>k + 1/2\<close> is the arithmetic mean of the highlights at \<open>k\<close> and at
  \<open>k + 1\<close>, for \<open>left\<close> and for \<open>width\<close>. The value of the interpolation is the
  piecewise-linear one the specification describes, in exact arithmetic.
\<close>

theorem highlight_halfway:
  assumes "segments p = Some segs" and "each_reported_once (length segs) es"
    and "(int k, g) \<in> set (layouts es)" and "(int (Suc k), g') \<in> set (layouts es)"
  shows "highlight_at p (run p (init p) es) (real k) =
           Some \<lparr>left_px = seg_x g - outlineWidth_of p, width_px = seg_width g\<rparr>
       \<and> highlight_at p (run p (init p) es) (real (Suc k)) =
           Some \<lparr>left_px = seg_x g' - outlineWidth_of p, width_px = seg_width g'\<rparr>
       \<and> highlight_at p (run p (init p) es) (real k + 1 / 2) =
           Some \<lparr>left_px = ((seg_x g - outlineWidth_of p) + (seg_x g' - outlineWidth_of p)) / 2,
                 width_px = (seg_width g + seg_width g') / 2\<rparr>"
proof -
  have "Suc k < length segs" using assms(2,4) by (rule once_in_range)
  then have two: "2 \<le> length segs" by simp
  show ?thesis
    using measured_highlight_breakpoint [OF assms(1,2) two assms(3)]
      measured_highlight_breakpoint [OF assms(1,2) two assms(4)]
      measured_highlight_halfway [OF assms]
    by simp
qed

theorem highlight_halfway_witness:
  "segments scenario_props = Some [''a'', ''b'', ''c'']
   \<and> each_reported_once 3 scenario_events
   \<and> (1, \<lparr>seg_x = 52, seg_width = 60\<rparr>) \<in> set (layouts scenario_events)
   \<and> (2, \<lparr>seg_x = 114, seg_width = 40\<rparr>) \<in> set (layouts scenario_events)
   \<and> highlight_at scenario_props scenario_state 1 = Some \<lparr>left_px = 51, width_px = 60\<rparr>
   \<and> highlight_at scenario_props scenario_state 2 = Some \<lparr>left_px = 113, width_px = 40\<rparr>
   \<and> highlight_at scenario_props scenario_state (3 / 2) = Some \<lparr>left_px = 82, width_px = 50\<rparr>"
proof -
  have a: "segments scenario_props = Some [''a'', ''b'', ''c'']"
    by (simp add: scenario_props_def)
  have b: "(int 1, \<lparr>seg_x = 52, seg_width = 60\<rparr>) \<in> set (layouts scenario_events)"
    by (simp add: scenario_events_def)
  have b': "(int (Suc 1), \<lparr>seg_x = 114, seg_width = 40\<rparr>) \<in> set (layouts scenario_events)"
    by (simp add: scenario_events_def)
  have c: "each_reported_once (length [''a'', ''b'', ''c'']) scenario_events"
    by (simp add: each_reported_once_def scenario_events_def upt_rec)
  have d: "outlineWidth_of scenario_props = 1"
    by (simp add: outlineWidth_of_def scenario_props_def)
  show ?thesis
    using highlight_halfway [OF a c b b'] a b b' scenario_once
    by (simp add: d scenario_state_def)
qed

section \<open>The interpolation ranges\<close>

text \<open>
  C7, as it is written, fails: the gate compares a count of reports with the number of
  segments, so two reports of segment 0 open it for two segments while the geometry
  table has one entry. The input range passed to each interpolation then has two
  elements and the output range one; the driver refuses them and the render throws.
\<close>

theorem ranges_mismatch_counterexample:
  "segments_length two_props = Some 2
   \<and> segmentsCounter
       (run two_props (init two_props)
          [Layout 0 \<lparr>seg_x = 0, seg_width = 50\<rparr>, Layout 0 \<lparr>seg_x = 0, seg_width = 50\<rparr>]) = 2
   \<and> left_config two_props
       (run two_props (init two_props)
          [Layout 0 \<lparr>seg_x = 0, seg_width = 50\<rparr>, Layout 0 \<lparr>seg_x = 0, seg_width = 50\<rparr>]) =
       Inr \<lparr>inputRange = [0, 1], outputRange = [- 1]\<rparr>
   \<and> width_config
       (run two_props (init two_props)
          [Layout 0 \<lparr>seg_x = 0, seg_width = 50\<rparr>, Layout 0 \<lparr>seg_x = 0, seg_width = 50\<rparr>]) =
       Inr \<lparr>inputRange = [0, 1], outputRange = [50]\<rparr>
   \<and> getAnimatedStyle two_props
       (run two_props (init two_props)
          [Layout 0 \<lparr>seg_x = 0, seg_width = 50\<rparr>, Layout 0 \<lparr>seg_x = 0, seg_width = 50\<rparr>]) =
       Inl InvariantViolation"
  by (simp add: two_props_def run_def init_def onLayout_def array_set_def segments_length_def
      initialIndex_of_def outlineWidth_of_def BORDER_WIDTH_def setSelectedSegment_def Let_def
      getAnimatedStyle_def left_config_def width_config_def interpolate_def times_def upt_rec)

text \<open>
  C7, amended. When every segment has reported its layout exactly once, the gate holds,
  the input range passed to both interpolations is \<open>0, ..., count - 1\<close>, the geometry
  table has \<open>count\<close> entries, and every output range is as long as its input range. With
  at least two segments the style is computed, and its two nodes carry these ranges.
\<close>

theorem ranges_match_when_each_reported_once:
  assumes "segments p = Some segs" and "each_reported_once (length segs) es"
  shows "\<exists>lc wc. left_config p (run p (init p) es) = Inr lc
           \<and> width_config (run p (init p) es) = Inr wc
           \<and> inputRange lc = map real [0..<length segs]
           \<and> inputRange wc = map real [0..<length segs]
           \<and> Some (segmentsCounter (run p (init p) es)) = segments_length p
           \<and> segmentsCounter (run p (init p) es) = length segs
           \<and> length (segmentsStyle (run p (init p) es)) = length segs
           \<and> length (outputRange lc) = length (inputRange lc)
           \<and> length (outputRange wc) = length (inputRange wc)
           \<and> (2 \<le> length segs \<longrightarrow>
                getAnimatedStyle p (run p (init p) es) =
                  Inr (Some \<lparr>width_node = wc, left_node = lc\<rparr>))"
  using assms
  by (simp add: measured_configs measured_style measured_counter measured_table
      once_table_length times_def segments_length_def)

theorem ranges_match_when_each_reported_once_witness:
  "segments scenario_props = Some [''a'', ''b'', ''c'']
   \<and> each_reported_once 3 scenario_events
   \<and> 2 \<le> length [''a'', ''b'', ''c'']
   \<and> (\<exists>lc wc. left_config scenario_props scenario_state = Inr lc
           \<and> width_config scenario_state = Inr wc
           \<and> inputRange lc = [0, 1, 2]
           \<and> inputRange wc = [0, 1, 2]
           \<and> length (segmentsStyle scenario_state) = 3
           \<and> length (outputRange lc) = 3
           \<and> length (outputRange wc) = 3
           \<and> getAnimatedStyle scenario_props scenario_state =
               Inr (Some \<lparr>width_node = wc, left_node = lc\<rparr>))"
proof -
  have a: "segments scenario_props = Some [''a'', ''b'', ''c'']"
    by (simp add: scenario_props_def)
  have c: "each_reported_once (length [''a'', ''b'', ''c'']) scenario_events"
    by (simp add: each_reported_once_def scenario_events_def upt_rec)
  show ?thesis
    using ranges_match_when_each_reported_once [OF a c] a scenario_once
    by (auto simp: scenario_state_def upt_rec)
qed

section \<open>When no style is computed\<close>

text \<open>
  C5, as it is written, fails for an empty list of segments: no segment ever reports,
  the counter stays at 0, which is \<^verbatim>\<open>segments.length\<close>, so the gate holds from the mount
  on. \<^verbatim>\<open>getAnimatedStyle\<close> does not return \<^verbatim>\<open>undefined\<close> there: it passes empty ranges to
  the driver, which refuses them, and the render throws.
\<close>

theorem empty_segments_counterexample:
  "segments empty_props = Some []
   \<and> Some (segmentsCounter (init empty_props)) = segments_length empty_props
   \<and> left_config empty_props (init empty_props) = Inr \<lparr>inputRange = [], outputRange = []\<rparr>
   \<and> getAnimatedStyle empty_props (init empty_props) = Inl InvariantViolation"
  by (simp add: empty_props_def init_def getAnimatedStyle_def segments_length_def times_def
      left_config_def interpolate_def)

text \<open>
  C5, amended. In every state whose counter differs from \<^verbatim>\<open>segments?.length\<close>,
  \<^verbatim>\<open>getAnimatedStyle\<close> returns \<^verbatim>\<open>undefined\<close>. When \<^verbatim>\<open>segments\<close> is \<^verbatim>\<open>undefined\<close> that is every
  state.
\<close>

theorem no_style_off_gate:
  "(Some (segmentsCounter s) \<noteq> segments_length p \<longrightarrow> getAnimatedStyle p s = Inr None)
   \<and> (segments p = None \<longrightarrow> getAnimatedStyle p s = Inr None)"
  by (simp add: getAnimatedStyle_def segments_length_def)

theorem no_style_off_gate_witness:
  "Some (segmentsCounter (onLayout two_props 0 \<lparr>seg_x = 0, seg_width = 50\<rparr> (init two_props)))
     \<noteq> segments_length two_props
   \<and> getAnimatedStyle two_props
       (onLayout two_props 0 \<lparr>seg_x = 0, seg_width = 50\<rparr> (init two_props)) = Inr None
   \<and> segments undefined_props = None
   \<and> getAnimatedStyle undefined_props (init undefined_props) = Inr None"
proof -
  have a: "Some (segmentsCounter (onLayout two_props 0 \<lparr>seg_x = 0, seg_width = 50\<rparr> (init two_props)))
      \<noteq> segments_length two_props"
    by (simp add: layout_table init_fields segments_length_def two_props_def)
  have b: "segments undefined_props = None" by (simp add: undefined_props_def)
  show ?thesis
    using a b
      no_style_off_gate [of "onLayout two_props 0 \<lparr>seg_x = 0, seg_width = 50\<rparr> (init two_props)"
        two_props]
      no_style_off_gate [of "init undefined_props" undefined_props]
    by simp
qed

text \<open>
  C10. When the counter equals the number of segments, one more layout report makes it
  that number plus one, and after any further events it stays above the number of
  segments, so \<^verbatim>\<open>getAnimatedStyle\<close> returns \<^verbatim>\<open>undefined\<close> from then on. The report itself
  leaves \<^verbatim>\<open>selectedSegment\<close> alone, and the selection, the effects and the animated value
  after the further events are those of their presses alone, applied without the extra
  report.
\<close>

theorem extra_layout_disables_highlight:
  assumes "segments_length p = Some n" and "segmentsCounter s = n"
  shows "segmentsCounter (onLayout p j g s) = Suc n
       \<and> selectedSegment (onLayout p j g s) = selectedSegment s
       \<and> n < segmentsCounter (run p (onLayout p j g s) es)
       \<and> getAnimatedStyle p (run p (onLayout p j g s) es) = Inr None
       \<and> selectedSegment (run p (onLayout p j g s) es) = selectedSegment (run p s (presses es))
       \<and> trace (run p (onLayout p j g s) es) = trace (run p s (presses es))
       \<and> animatedValue (run p (onLayout p j g s) es) = animatedValue (run p s (presses es))"
proof -
  let ?s1 = "onLayout p j g s"
  have off: "Some (Suc (segmentsCounter s)) \<noteq> segments_length p"
    using assms by simp
  have counter1: "segmentsCounter ?s1 = Suc n" using assms(2) by (simp add: layout_table)
  have past: "n < segmentsCounter (run p ?s1 es)" by (simp add: run_counter counter1)
  then have "Some (segmentsCounter (run p ?s1 es)) \<noteq> segments_length p"
    using assms(1) by simp
  then have style: "getAnimatedStyle p (run p ?s1 es) = Inr None" by (rule undefined_off_gate)
  have "n \<le> segmentsCounter ?s1" by (simp add: counter1)
  then have "selectedSegment (run p ?s1 es) = selectedSegment (run p s (presses es))
     \<and> trace (run p ?s1 es) = trace (run p s (presses es))
     \<and> animatedValue (run p ?s1 es) = animatedValue (run p s (presses es))"
    by (intro off_gate_layouts [OF assms(1)]) (simp_all add: layout_off_gate [OF off])
  with counter1 past style show ?thesis by (simp add: layout_off_gate [OF off])
qed

theorem extra_layout_disables_highlight_witness:
  "segments_length scenario_props = Some 3
   \<and> segmentsCounter scenario_state = 3
   \<and> segmentsCounter (onLayout scenario_props 0 \<lparr>seg_x = 0, seg_width = 50\<rparr> scenario_state) = 4
   \<and> getAnimatedStyle scenario_props
       (run scenario_props (onLayout scenario_props 0 \<lparr>seg_x = 0, seg_width = 50\<rparr> scenario_state)
          [Press 2, Layout 1 \<lparr>seg_x = 52, seg_width = 60\<rparr>]) = Inr None
   \<and> selectedSegment
       (run scenario_props (onLayout scenario_props 0 \<lparr>seg_x = 0, seg_width = 50\<rparr> scenario_state)
          [Press 2, Layout 1 \<lparr>seg_x = 52, seg_width = 60\<rparr>]) = 2"
proof -
  have a: "segments_length scenario_props = Some 3"
    by (simp add: segments_length_def scenario_props_def)
  have b: "segmentsCounter scenario_state = 3" by (simp add: scenario_state_eq)
  have c: "selectedSegment (run scenario_props scenario_state [Press 2]) = 2"
    by (simp add: run_Cons run_Nil press_selected)
  show ?thesis
    using extra_layout_disables_highlight
      [OF a b, of 0 "\<lparr>seg_x = 0, seg_width = 50\<rparr>"
         "[Press 2, Layout 1 \<lparr>seg_x = 52, seg_width = 60\<rparr>]"] a b c
    by simp
qed

section \<open>The selection over time\<close>

text \<open>
  C6, as it is written, fails twice. A press is handled before the gate has passed:
  with two segments and no layout report yet, pressing segment 1 makes
  \<^verbatim>\<open>selectedSegment\<close> 1. And the gate stores \<^verbatim>\<open>initialIndex\<close> unchecked: with two segments
  and \<^verbatim>\<open>initialIndex\<close> 5, \<^verbatim>\<open>selectedSegment\<close> is 5 after both reports.
\<close>

theorem selection_counterexample:
  "segments_length two_props = Some 2
   \<and> segmentsCounter (run two_props (init two_props) [Press 1]) = 0
   \<and> selectedSegment (run two_props (init two_props) [Press 1]) = 1
   \<and> segments_length far_props = Some 2
   \<and> segmentsCounter
       (run far_props (init far_props)
          [Layout 0 \<lparr>seg_x = 0, seg_width = 50\<rparr>, Layout 1 \<lparr>seg_x = 52, seg_width = 60\<rparr>]) = 2
   \<and> selectedSegment
       (run far_props (init far_props)
          [Layout 0 \<lparr>seg_x = 0, seg_width = 50\<rparr>, Layout 1 \<lparr>seg_x = 52, seg_width = 60\<rparr>]) = 5"
  by (simp add: two_props_def far_props_def run_def init_def onLayout_def onSegmentPress_def
      updateSelectedSegment_def timing_start_def call_onChangeIndex_def
      segments_length_def initialIndex_of_def setSelectedSegment_def Let_def)

text \<open>
  C6, amended. Let \<^verbatim>\<open>initialIndex\<close> be the index of a segment and let every press carry
  the index of a segment. Then \<^verbatim>\<open>selectedSegment\<close> is \<open>-1\<close> as long as nothing was pressed
  and fewer layout reports than segments have arrived; it is always \<open>-1\<close> or the index
  of a segment; and once as many layout reports as segments have arrived it is the
  index of a segment, whatever layout reports and presses follow.
\<close>

theorem selection_valid_once_gate_passed:
  assumes "segments p = Some segs"
    and "0 \<le> initialIndex_of p" and "initialIndex_of p < int (length segs)"
    and "list_all (press_in_range (length segs)) es"
  shows "(presses es = [] \<and> length (layouts es) < length segs \<longrightarrow>
            selectedSegment (run p (init p) es) = - 1)
       \<and> (selectedSegment (run p (init p) es) = - 1
            \<or> (0 \<le> selectedSegment (run p (init p) es)
                \<and> selectedSegment (run p (init p) es) < int (length segs)))
       \<and> (length segs \<le> length (layouts es) \<longrightarrow>
            0 \<le> selectedSegment (run p (init p) es)
            \<and> selectedSegment (run p (init p) es) < int (length segs))"
proof -
  have len: "segments_length p = Some (length segs)"
    using assms(1) by (simp add: segments_length_def)
  have quiet: "selectedSegment (run p (init p) es) = - 1"
    if "presses es = []" and "length (layouts es) < length segs"
    using quiet_layouts [OF len that(1), of "init p"] that(2) by (simp add: init_fields)
  have "length segs \<le> segmentsCounter (init p) \<longrightarrow>
      0 \<le> selectedSegment (init p) \<and> selectedSegment (init p) < int (length segs)"
    using assms(2,3) by (cases segs) (simp_all add: init_fields)
  then have "(selectedSegment (run p (init p) es) = - 1
        \<or> (0 \<le> selectedSegment (run p (init p) es)
            \<and> selectedSegment (run p (init p) es) < int (length segs)))
     \<and> (length segs \<le> segmentsCounter (run p (init p) es) \<longrightarrow>
          (0 \<le> selectedSegment (run p (init p) es)
            \<and> selectedSegment (run p (init p) es) < int (length segs)))"
    using assms(4) by (intro selection_invariant [OF len assms(2,3)]) (simp_all add: init_fields)
  then show ?thesis using quiet by (simp add: run_counter init_fields)
qed

theorem selection_valid_once_gate_passed_witness:
  "segments scenario_props = Some [''a'', ''b'', ''c'']
   \<and> 0 \<le> initialIndex_of scenario_props
   \<and> initialIndex_of scenario_props < 3
   \<and> list_all (press_in_range 3) [Layout 0 \<lparr>seg_x = 0, seg_width = 50\<rparr>]
   \<and> presses [Layout 0 \<lparr>seg_x = 0, seg_width = 50\<rparr>] = []
   \<and> length (layouts [Layout 0 \<lparr>seg_x = 0, seg_width = 50\<rparr>]) < 3
   \<and> selectedSegment
       (run scenario_props (init scenario_props) [Layout 0 \<lparr>seg_x = 0, seg_width = 50\<rparr>]) = - 1
   \<and> list_all (press_in_range 3)
       (scenario_events @ [Press 2, Layout 0 \<lparr>seg_x = 0, seg_width = 50\<rparr>])
   \<and> 3 \<le> length (layouts (scenario_events @ [Press 2, Layout 0 \<lparr>seg_x = 0, seg_width = 50\<rparr>]))
   \<and> 0 \<le> selectedSegment
       (run scenario_props (init scenario_props)
          (scenario_events @ [Press 2, Layout 0 \<lparr>seg_x = 0, seg_width = 50\<rparr>]))
   \<and> selectedSegment
       (run scenario_props (init scenario_props)
          (scenario_events @ [Press 2, Layout 0 \<lparr>seg_x = 0, seg_width = 50\<rparr>])) < 3"
proof -
  have a: "segments scenario_props = Some [''a'', ''b'', ''c'']"
    by (simp add: scenario_props_def)
  have b: "0 \<le> initialIndex_of scenario_props"
    and c: "initialIndex_of scenario_props < int (length [''a'', ''b'', ''c''])"
    by (simp_all add: initialIndex_of_def scenario_props_def)
  have d: "list_all (press_in_range (length [''a'', ''b'', ''c''])) [Layout 0 \<lparr>seg_x = 0, seg_width = 50\<rparr>]"
    by simp
  have e: "list_all (press_in_range (length [''a'', ''b'', ''c'']))
      (scenario_events @ [Press 2, Layout 0 \<lparr>seg_x = 0, seg_width = 50\<rparr>])"
    by (simp add: scenario_events_def)
  show ?thesis
    using selection_valid_once_gate_passed [OF a b c d]
      selection_valid_once_gate_passed [OF a b c e] a b c d e
    by (simp add: scenario_events_def)
qed

end
